theory Spec2Isabelle
  imports Main
begin

section \<open>Values of the host language\<close>

text \<open>
  The facade of \<^verbatim>\<open>ObservableCollection.ts\<close> never inspects the documents, selectors,
  modifiers, results or errors it passes around; the only operation it applies to a value is
  the truthiness test of \<^verbatim>\<open>error ? ... : ...\<close>.  Values are therefore modelled as a small
  universe of JavaScript values with that test.  Numbers are integers here (the facade does no
  arithmetic).
\<close>

datatype jsval =
    JUndefined
  | JNull
  | JBool bool
  | JNum int
  | JStr string
  | JObj "(string \<times> jsval) list"

fun truthy :: "jsval \<Rightarrow> bool" where
  "truthy JUndefined = False"
| "truthy JNull = False"
| "truthy (JBool b) = b"
| "truthy (JNum n) = (n \<noteq> 0)"
| "truthy (JStr s) = (s \<noteq> [])"
| "truthy (JObj fs) = True"

text \<open>
  How a deferred result of the host store settles.  The store is an external collaborator
  (\<^verbatim>\<open>Mongo.Collection\<close>); by its consumed interface each asynchronous method
  ``returns a deferred result or rejects with an error object'', so a rejection carries the
  fields of an object.
\<close>

datatype outcome =
    Fulfilled jsval
  | Rejected "(string \<times> jsval) list"

text \<open>What a JavaScript call hands back: a plain value, or a promise that settles later.\<close>

datatype retval =
    Plain jsval
  | Deferred outcome

section \<open>Subscribers\<close>

text \<open>
  \<^verbatim>\<open>Subscriber<T>\<close> is a class of the external stream library; the library creates one
  object per \<^verbatim>\<open>subscribe\<close> call.  A subscriber is identified here by a number, its position
  in the sequence of registrations.  Two histories are kept: \<open>calls\<close>, the method calls
  made on subscribers, and \<open>delivered\<close>, what the callbacks of the subscribers were invoked
  with; the callbacks themselves only observe.
\<close>

datatype notification =
    Next jsval
  | Error jsval
  | Complete

datatype kind = Insert | Remove | Update | Upsert

text \<open>
  The promise an \<^verbatim>\<open>async\<close> method returns to its caller: still pending, fulfilled with
  \<^verbatim>\<open>obs\<close> (the Observable over this call's \<^verbatim>\<open>observers\<close> array), or rejected.
\<close>

datatype promise =
    Pending
  | ResolvedObs
  | RejectedWith jsval

text \<open>
  The state of one mutating call: the host mutations it has launched, its local array
  \<^verbatim>\<open>observers\<close>, the state of the subscribers (which are finished, which of their methods
  were called, what their callbacks have received), the promise returned to the caller, and
  the number the next subscriber gets.
\<close>

record pending_op =
  host_calls :: "(kind \<times> jsval list) list"
  observers :: "nat list"
  stopped :: "nat set"
  calls :: "(nat \<times> notification) list"
  delivered :: "(nat \<times> notification) list"
  returned :: promise
  fresh :: nat

text \<open>
  Modelled from the spec: \<^verbatim>\<open>removeObserver\<close> of \<^verbatim>\<open>./utils\<close>, which is not among the
  sources.  The spec has the unsubscribe closure remove the caller's entry from the registry,
  by identity, idempotently: the entry is taken out where it stands, and an array without it
  stays as it is.
\<close>

definition removeObserver :: "nat list \<Rightarrow> nat \<Rightarrow> nat list" where
  "removeObserver obs observer = remove1 observer obs"

text \<open>
  The teardown of a subscription, the closure that the function given to
  \<^verbatim>\<open>Observable.create\<close> returns:
  \<^verbatim>\<open>
        return () => {
          removeObserver(observers, observer);
        };
  \<close>
\<close>

definition unsubscribe :: "nat \<Rightarrow> pending_op \<Rightarrow> pending_op" where
  "unsubscribe observer st = st\<lparr>observers := removeObserver (observers st) observer\<rparr>"

text \<open>
  Modelled from the spec: the methods \<^verbatim>\<open>next\<close>, \<^verbatim>\<open>error\<close> and \<^verbatim>\<open>complete\<close> of
  \<^verbatim>\<open>Subscriber\<close>, which belong to the stream library and are not among the sources.  On
  \<^verbatim>\<open>error\<close> the error callback is invoked and the subscription is finished; on
  \<^verbatim>\<open>complete\<close> the completion callback is invoked and the subscription is finished; a
  finished subscriber invokes no callback any more.  A subscription that finishes is torn
  down: its entry leaves the registry (``entries removed on explicit unsubscribe or implicitly
  once drained''), by the teardown above, at once, while the array is being traversed.  Every
  call is recorded in \<open>calls\<close>, whether or not a callback is invoked.
\<close>

definition sub_next :: "nat \<Rightarrow> jsval \<Rightarrow> pending_op \<Rightarrow> pending_op" where
  "sub_next observer v st =
     (if observer \<in> stopped st
      then st\<lparr>calls := calls st @ [(observer, Next v)]\<rparr>
      else st\<lparr>calls := calls st @ [(observer, Next v)],
              delivered := delivered st @ [(observer, Next v)]\<rparr>)"

definition sub_error :: "nat \<Rightarrow> jsval \<Rightarrow> pending_op \<Rightarrow> pending_op" where
  "sub_error observer e st =
     (if observer \<in> stopped st
      then st\<lparr>calls := calls st @ [(observer, Error e)]\<rparr>
      else unsubscribe observer
             (st\<lparr>calls := calls st @ [(observer, Error e)],
                 delivered := delivered st @ [(observer, Error e)],
                 stopped := insert observer (stopped st)\<rparr>))"

definition sub_complete :: "nat \<Rightarrow> pending_op \<Rightarrow> pending_op" where
  "sub_complete observer st =
     (if observer \<in> stopped st
      then st\<lparr>calls := calls st @ [(observer, Complete)]\<rparr>
      else unsubscribe observer
             (st\<lparr>calls := calls st @ [(observer, Complete)],
                 delivered := delivered st @ [(observer, Complete)],
                 stopped := insert observer (stopped st)\<rparr>))"

text \<open>What the callbacks of subscriber \<open>i\<close> have been invoked with so far, in order.\<close>

definition received :: "nat \<Rightarrow> pending_op \<Rightarrow> notification list" where
  "received i st = map snd (filter (\<lambda>p. fst p = i) (delivered st))"

section \<open>The mutating operations\<close>

text \<open>
  \<^verbatim>\<open>insert\<close>, \<^verbatim>\<open>remove\<close>, \<^verbatim>\<open>update\<close> and \<^verbatim>\<open>upsert\<close> have the same body up to the
  host method they call:
  \<^verbatim>\<open>
    async insert(doc: T): Promise<Observable<string>> {
      let observers: Subscriber<string>[] = [];
      let obs = this._createObservable<string>(observers);
      let result, error;
      try {
        result = await this._collection.insertAsync(doc);
      } catch (e) {
        error = e;
      }
      observers.forEach(observer => {
        error ? observer.error(error) :
          observer.next(result);
        observer.complete();
      });
      return obs;
    }
  \<close>
  An \<^verbatim>\<open>async\<close> function runs synchronously up to its first \<^verbatim>\<open>await\<close>, hands its caller
  a pending promise, and is resumed when the awaited promise has settled.  \<open>mutate\<close> is the
  part before the \<^verbatim>\<open>await\<close>, \<open>settle\<close> the part after it.
\<close>

definition mutate :: "kind \<Rightarrow> jsval list \<Rightarrow> pending_op" where
  "mutate k args =
     \<lparr>host_calls = [(k, args)], observers = [], stopped = {}, calls = [], delivered = [],
      returned = Pending, fresh = 0\<rparr>"

text \<open>
  The callback of \<^verbatim>\<open>observers.forEach\<close>.  The conditional expression is a statement of its
  own; \<^verbatim>\<open>observer.complete()\<close> follows it on both branches.
\<close>

definition notify :: "jsval \<Rightarrow> jsval \<Rightarrow> nat \<Rightarrow> pending_op \<Rightarrow> pending_op" where
  "notify err res observer st =
     sub_complete observer
       (if truthy err then sub_error observer err st else sub_next observer res st)"

text \<open>
  \<^verbatim>\<open>Array.prototype.forEach\<close> on the array \<^verbatim>\<open>observers\<close> itself: the length is read once;
  the indices below it are visited in turn; at each index the callback gets the element that
  stands there at that moment, and an index the array no longer has is passed over.
  \<open>forEach f n k\<close> has \<open>n\<close> indices left to visit, the next of them \<open>k\<close>.
\<close>

fun forEach :: "(nat \<Rightarrow> pending_op \<Rightarrow> pending_op) \<Rightarrow> nat \<Rightarrow> nat \<Rightarrow> pending_op \<Rightarrow> pending_op" where
  "forEach f 0 k st = st"
| "forEach f (Suc n) k st =
     forEach f n (Suc k) (if k < length (observers st) then f (observers st ! k) st else st)"

text \<open>
  The continuation after the \<^verbatim>\<open>await\<close>: \<^verbatim>\<open>result\<close> and \<^verbatim>\<open>error\<close> start out undefined
  and one of them is assigned; the array is traversed; the promise of the call is fulfilled
  with \<^verbatim>\<open>obs\<close>.
\<close>

definition settle :: "outcome \<Rightarrow> pending_op \<Rightarrow> pending_op" where
  "settle oc st =
     (let res = (case oc of Fulfilled v \<Rightarrow> v | Rejected e \<Rightarrow> JUndefined);
          err = (case oc of Fulfilled v \<Rightarrow> JUndefined | Rejected e \<Rightarrow> JObj e)
      in (forEach (notify err res) (length (observers st)) 0 st)\<lparr>returned := ResolvedObs\<rparr>)"

definition insert_coll :: "jsval \<Rightarrow> pending_op" where
  "insert_coll doc = mutate Insert [doc]"

definition remove :: "jsval \<Rightarrow> pending_op" where
  "remove selector = mutate Remove [selector]"

definition update :: "jsval \<Rightarrow> jsval \<Rightarrow> jsval \<Rightarrow> pending_op" where
  "update selector modifier options = mutate Update [selector, modifier, options]"

definition upsert :: "jsval \<Rightarrow> jsval \<Rightarrow> jsval \<Rightarrow> pending_op" where
  "upsert selector modifier options = mutate Upsert [selector, modifier, options]"

section \<open>Queries\<close>

text \<open>
  \<^verbatim>\<open>find\<close> applies the store's \<^verbatim>\<open>find\<close> to the arguments it was called with and wraps the
  cursor with \<^verbatim>\<open>ObservableCursor.create\<close>; both are external and are parameters.
  \<^verbatim>\<open>findOne\<close> returns what the store's \<^verbatim>\<open>findOneAsync\<close> returns for the same arguments.
  By the store's consumed interface that is a deferred result; the parameter
  \<open>host_findOneAsync\<close> says how it will settle.
\<close>

definition find_coll :: "(jsval list \<Rightarrow> 'c) \<Rightarrow> ('c \<Rightarrow> 's) \<Rightarrow> jsval list \<Rightarrow> 's" where
  "find_coll host_find create args = create (host_find args)"

definition findOne :: "(jsval list \<Rightarrow> outcome) \<Rightarrow> jsval list \<Rightarrow> retval" where
  "findOne host_findOneAsync args = Deferred (host_findOneAsync args)"

section \<open>The second names\<close>

text \<open>
  \<^verbatim>\<open>public insertAsync = this.insert;\<close> and its five siblings: each instance field is
  initialised with the method of the same instance.
\<close>

definition insertAsync :: "jsval \<Rightarrow> pending_op" where
  "insertAsync = insert_coll"

definition removeAsync :: "jsval \<Rightarrow> pending_op" where
  "removeAsync = remove"

definition updateAsync :: "jsval \<Rightarrow> jsval \<Rightarrow> jsval \<Rightarrow> pending_op" where
  "updateAsync = update"

definition upsertAsync :: "jsval \<Rightarrow> jsval \<Rightarrow> jsval \<Rightarrow> pending_op" where
  "upsertAsync = upsert"

definition findAsync :: "(jsval list \<Rightarrow> 'c) \<Rightarrow> ('c \<Rightarrow> 's) \<Rightarrow> jsval list \<Rightarrow> 's" where
  "findAsync = find_coll"

definition findOneAsync :: "(jsval list \<Rightarrow> outcome) \<Rightarrow> jsval list \<Rightarrow> retval" where
  "findOneAsync = findOne"

section \<open>The stream of a mutating call\<close>

text \<open>
  \<^verbatim>\<open>
    private _createObservable<T>(observers: Subscriber<T>[]) {
      return Observable.create((observer: Subscriber<T>) => {
        observers.push(observer);
        return () => {
          removeObserver(observers, observer);
        };
      });
    }
  \<close>
  \<open>subscribe\<close> is one subscription to that Observable: the library creates the subscriber,
  the function pushes it; the result is the subscriber, whose teardown is \<open>unsubscribe\<close>.
\<close>

definition subscribe :: "pending_op \<Rightarrow> nat \<times> pending_op" where
  "subscribe st =
     (fresh st, st\<lparr>observers := observers st @ [fresh st], fresh := Suc (fresh st)\<rparr>)"

section \<open>Runs\<close>

text \<open>
  What can happen to a call after it was made: somebody subscribes to its stream, a
  subscriber unsubscribes, the host mutation settles.  A subscription needs the stream, and
  the caller holds \<^verbatim>\<open>obs\<close> only once the promise of the call is fulfilled: \<^verbatim>\<open>obs\<close> and
  \<^verbatim>\<open>observers\<close> are local variables of the method and leave it through \<^verbatim>\<open>return obs\<close>
  alone, after the \<^verbatim>\<open>await\<close> and the \<^verbatim>\<open>forEach\<close>.  A promise settles once, so a second
  settlement is not a step.
\<close>

datatype event =
    Subscribe
  | Unsubscribe nat
  | Settle outcome

fun step :: "event \<Rightarrow> pending_op \<Rightarrow> pending_op option" where
  "step Subscribe st = (if returned st = ResolvedObs then Some (snd (subscribe st)) else None)"
| "step (Unsubscribe i) st = Some (unsubscribe i st)"
| "step (Settle oc) st = (if returned st = Pending then Some (settle oc st) else None)"

fun run :: "event list \<Rightarrow> pending_op \<Rightarrow> pending_op option" where
  "run [] st = Some st"
| "run (e # es) st = (case step e st of None \<Rightarrow> None | Some st' \<Rightarrow> run es st')"

text \<open>
  A state in which the subscribers of the array are two by two different and every
  subscriber that exists was numbered before \<open>fresh\<close>.
\<close>

definition wf :: "pending_op \<Rightarrow> bool" where
  "wf st \<longleftrightarrow> distinct (observers st) \<and> list_all (\<lambda>j. j < fresh st) (observers st)"

section \<open>The methods of a subscriber\<close>

lemma unsubscribe_fields:
  "observers (unsubscribe i st) = remove1 i (observers st)"
  "fresh (unsubscribe i st) = fresh st"
  "delivered (unsubscribe i st) = delivered st"
  "calls (unsubscribe i st) = calls st"
  "stopped (unsubscribe i st) = stopped st"
  "returned (unsubscribe i st) = returned st"
  "host_calls (unsubscribe i st) = host_calls st"
  by (simp_all add: unsubscribe_def removeObserver_def)


lemma notify_fields:
  "host_calls (notify err res j st) = host_calls st"
  "returned (notify err res j st) = returned st"
  "fresh (notify err res j st) = fresh st"
  by (simp_all add: notify_def sub_complete_def sub_error_def sub_next_def unsubscribe_fields)

lemma observers_notify:
  "observers (notify err res j st) =
     (if j \<in> stopped st then observers st else remove1 j (observers st))"
  by (simp add: notify_def sub_complete_def sub_error_def sub_next_def unsubscribe_fields)

lemma set_observers_notify: "set (observers (notify err res j st)) \<subseteq> set (observers st)"
  using set_remove1_subset [of j "observers st"] by (simp add: observers_notify)

lemma distinct_observers_notify:
  "distinct (observers st) \<Longrightarrow> distinct (observers (notify err res j st))"
  by (simp add: observers_notify)


lemma calls_notify:
  "calls (notify err res j st) =
     calls st @ (if truthy err then [(j, Error err), (j, Complete)]
                 else [(j, Next res), (j, Complete)])"
  by (simp add: notify_def sub_complete_def sub_error_def sub_next_def unsubscribe_fields)


section \<open>The traversal of the array\<close>

lemma forEach_empty: "observers st = [] \<Longrightarrow> forEach f n k st = st"
  by (induction n arbitrary: k) simp_all

lemma forEach_fields:
  "host_calls (forEach (notify err res) n k st) = host_calls st"
  "returned (forEach (notify err res) n k st) = returned st"
  "fresh (forEach (notify err res) n k st) = fresh st"
  by (induction n arbitrary: k st; simp add: notify_fields)+

lemma set_observers_forEach:
  "set (observers (forEach (notify err res) n k st)) \<subseteq> set (observers st)"
proof (induction n arbitrary: k st)
  case 0
  show ?case by simp
next
  case (Suc n)
  show ?case
  proof (cases "k < length (observers st)")
    case True
    from Suc.IH [of "Suc k" "notify err res (observers st ! k) st"]
      set_observers_notify [of err res "observers st ! k" st] True
    show ?thesis by auto
  next
    case False
    with Suc.IH [of "Suc k" st] show ?thesis by simp
  qed
qed

lemma distinct_observers_forEach:
  "distinct (observers st) \<Longrightarrow> distinct (observers (forEach (notify err res) n k st))"
proof (induction n arbitrary: k st)
  case 0
  then show ?case by simp
next
  case (Suc n)
  from Suc.prems have "distinct (observers (notify err res (observers st ! k) st))"
    by (rule distinct_observers_notify)
  with Suc.IH Suc.prems show ?case by simp
qed



section \<open>The settlement\<close>

lemma settle_fields:
  "host_calls (settle oc st) = host_calls st"
  "fresh (settle oc st) = fresh st"
  "returned (settle oc st) = ResolvedObs"
  by (simp_all add: settle_def Let_def forEach_fields)

lemma settle_empty: "observers st = [] \<Longrightarrow> settle oc st = st\<lparr>returned := ResolvedObs\<rparr>"
  by (simp add: settle_def)

lemma set_observers_settle: "set (observers (settle oc st)) \<subseteq> set (observers st)"
  by (simp add: settle_def Let_def set_observers_forEach)

lemma distinct_observers_settle:
  "distinct (observers st) \<Longrightarrow> distinct (observers (settle oc st))"
  by (simp add: settle_def Let_def distinct_observers_forEach)



section \<open>Runs of a call\<close>

lemma subscribe_fields:
  "fst (subscribe st) = fresh st"
  "observers (snd (subscribe st)) = observers st @ [fresh st]"
  "fresh (snd (subscribe st)) = Suc (fresh st)"
  "delivered (snd (subscribe st)) = delivered st"
  "calls (snd (subscribe st)) = calls st"
  "stopped (snd (subscribe st)) = stopped st"
  "returned (snd (subscribe st)) = returned st"
  "host_calls (snd (subscribe st)) = host_calls st"
  by (simp_all add: subscribe_def)


lemma mutate_fields:
  "host_calls (mutate k args) = [(k, args)]"
  "observers (mutate k args) = []"
  "stopped (mutate k args) = {}"
  "delivered (mutate k args) = []"
  "calls (mutate k args) = []"
  "returned (mutate k args) = Pending"
  "fresh (mutate k args) = 0"
  by (simp_all add: mutate_def)



text \<open>
  Along the runs of a call the array is empty as long as the promise is pending, the promise
  is never rejected, no method of a subscriber is called and no callback is invoked.
\<close>

lemma step_quiet:
  assumes "returned st = Pending \<longrightarrow> observers st = []"
    and "delivered st = [] \<and> calls st = []"
    and "returned st = Pending \<or> returned st = ResolvedObs"
    and "step e st = Some st'"
  shows "(returned st' = Pending \<longrightarrow> observers st' = []) \<and> (delivered st' = [] \<and> calls st' = [])
    \<and> (returned st' = Pending \<or> returned st' = ResolvedObs)"
proof (cases e)
  case Subscribe
  with assms show ?thesis by (auto simp add: subscribe_fields split: if_splits)
next
  case (Unsubscribe j)
  with assms show ?thesis by (auto simp add: unsubscribe_fields)
next
  case (Settle oc)
  with assms show ?thesis by (auto simp add: settle_empty split: if_splits)
qed

lemma run_quiet:
  "returned st = Pending \<longrightarrow> observers st = [] \<Longrightarrow> delivered st = [] \<and> calls st = [] \<Longrightarrow>
   returned st = Pending \<or> returned st = ResolvedObs \<Longrightarrow> run es st = Some st' \<Longrightarrow>
   (returned st' = Pending \<longrightarrow> observers st' = []) \<and> (delivered st' = [] \<and> calls st' = [])
    \<and> (returned st' = Pending \<or> returned st' = ResolvedObs)"
proof (induction es arbitrary: st)
  case Nil
  then show ?case by simp
next
  case (Cons e es)
  from Cons.prems obtain st1 where a: "step e st = Some st1" and b: "run es st1 = Some st'"
    by (auto split: option.splits)
  from step_quiet [OF Cons.prems(1,2,3) a] Cons.IH [OF _ _ _ b] show ?case by simp
qed

lemma run_from_call:
  assumes "run es (mutate k args) = Some st"
  shows "returned st = Pending \<Longrightarrow> observers st = []"
    and "delivered st = []" and "calls st = []"
    and "returned st = Pending \<or> returned st = ResolvedObs"
  using run_quiet [OF _ _ _ assms] by (simp_all add: mutate_fields)

lemma run_delivers_nothing:
  "run es (mutate k args) = Some st \<Longrightarrow> delivered st = [] \<and> calls st = []"
  by (simp add: run_from_call)

lemma wf_step: "wf st \<Longrightarrow> step e st = Some st' \<Longrightarrow> wf st'"
proof (cases e)
  case Subscribe
  assume "wf st" and "step e st = Some st'"
  with Subscribe show ?thesis
    by (auto simp add: wf_def subscribe_fields list_all_iff less_Suc_eq split: if_splits)
next
  case (Unsubscribe j)
  assume "wf st" and "step e st = Some st'"
  with Unsubscribe set_remove1_subset [of j "observers st"] show ?thesis
    by (auto simp add: wf_def unsubscribe_fields list_all_iff)
next
  case (Settle oc)
  assume "wf st" and "step e st = Some st'"
  with Settle set_observers_settle [of oc st] show ?thesis
    by (auto simp add: wf_def settle_fields distinct_observers_settle list_all_iff
        split: if_splits)
qed

lemma wf_run: "wf st \<Longrightarrow> run es st = Some st' \<Longrightarrow> wf st'"
proof (induction es arbitrary: st)
  case Nil
  then show ?case by simp
next
  case (Cons e es)
  then show ?case
    by (auto split: option.splits dest: wf_step)
qed

lemma wf_call: "run es (mutate k args) = Some st \<Longrightarrow> wf st"
  by (rule wf_run [of "mutate k args"]) (simp_all add: wf_def mutate_fields)

lemma settled_step:
  "returned st \<noteq> Pending \<Longrightarrow> step e st = Some st' \<Longrightarrow>
   delivered st' = delivered st \<and> calls st' = calls st \<and> returned st' = returned st"
  by (cases e) (auto simp add: subscribe_fields unsubscribe_fields split: if_splits)

lemma settled_run:
  "returned st \<noteq> Pending \<Longrightarrow> run es st = Some st' \<Longrightarrow>
   delivered st' = delivered st \<and> calls st' = calls st \<and> returned st' = returned st"
proof (induction es arbitrary: st)
  case Nil
  then show ?case by simp
next
  case (Cons e es)
  from Cons.prems obtain st1 where a: "step e st = Some st1" and b: "run es st1 = Some st'"
    by (auto split: option.splits)
  from settled_step [OF Cons.prems(1) a]
  have c: "delivered st1 = delivered st" "calls st1 = calls st"
    and d: "returned st1 = returned st" by simp_all
  from d Cons.prems(1) have "returned st1 \<noteq> Pending" by simp
  from Cons.IH [OF this b] c d show ?case by simp
qed



lemma findOne_never_plain: "findOne host_findOneAsync args \<noteq> Plain v"
  by (simp add: findOne_def)

section \<open>Evaluating the code\<close>


section \<open>When the stream is handed out\<close>

text \<open>
  C1 reads: every mutating operation returns its stream synchronously, before the host
  mutation settles.  The code at \<^verbatim>\<open>insert({v: 1})\<close>, whose host insertion fulfils with
  \<^verbatim>\<open>"id1"\<close>: when the call returns, its promise is pending and the caller has no stream to
  subscribe to; the promise carries \<^verbatim>\<open>obs\<close> only after the settlement, when the array has
  been traversed already, empty, and no method of any subscriber was called.
\<close>

theorem C1_stream_handed_out_after_settlement:
  "returned (insert_coll (JObj [(''v'', JNum 1)])) = Pending
   \<and> step Subscribe (insert_coll (JObj [(''v'', JNum 1)])) = None
   \<and> returned (settle (Fulfilled (JStr ''id1'')) (insert_coll (JObj [(''v'', JNum 1)])))
       = ResolvedObs
   \<and> calls (settle (Fulfilled (JStr ''id1'')) (insert_coll (JObj [(''v'', JNum 1)]))) = []"
  by (simp add: insert_coll_def mutate_def settle_def)

section \<open>Delivery at settlement\<close>





section \<open>Late subscription\<close>

text \<open>
  C5: a subscription made after the settlement of a mutating call succeeds, and so does its
  unsubscription; whatever follows, the callbacks of the late subscriber are never invoked, no
  method of any subscriber is called and no callback of anybody is invoked; the unsubscription
  changes nothing but the array, which is not read again.
\<close>

theorem C5_late_subscription_is_silent:
  assumes "run es (mutate k args) = Some st" and "returned st \<noteq> Pending"
    and "subscribe st = (i, st1)" and "run es' st1 = Some st2"
  shows "step Subscribe st = Some st1
    \<and> step (Unsubscribe i) st1 = Some (unsubscribe i st1)
    \<and> received i st2 = []
    \<and> calls st2 = calls st
    \<and> delivered st2 = delivered st
    \<and> calls (unsubscribe i st1) = calls st
    \<and> delivered (unsubscribe i st1) = delivered st
    \<and> returned (unsubscribe i st1) = returned st
    \<and> host_calls (unsubscribe i st1) = host_calls st"
proof -
  from run_from_call(4) [OF assms(1)] assms(2) have r: "returned st = ResolvedObs" by simp
  from assms(3) have "snd (subscribe st) = st1" by simp
  then have s: "st1 = snd (subscribe st)" by simp
  from assms(2) have "returned st1 \<noteq> Pending" by (simp add: s subscribe_fields)
  from settled_run [OF this assms(4)]
  have d: "delivered st2 = delivered st" and c: "calls st2 = calls st"
    by (simp_all add: s subscribe_fields)
  from d run_from_call(2) [OF assms(1)] have "received i st2 = []"
    by (simp add: received_def)
  with c d r show ?thesis by (simp add: s unsubscribe_fields subscribe_fields)
qed

text \<open>
  C5 at \<^verbatim>\<open>insert(null)\<close> settled with \<^verbatim>\<open>"id1"\<close>, a late subscription, one more, and
  the unsubscription of the first.
\<close>

theorem C5_witness:
  "returned (settle (Fulfilled (JStr ''id1'')) (insert_coll JNull)) \<noteq> Pending
   \<and> subscribe (settle (Fulfilled (JStr ''id1'')) (insert_coll JNull))
      = (0, snd (subscribe (settle (Fulfilled (JStr ''id1'')) (insert_coll JNull))))
   \<and> received 0 (unsubscribe 0 (snd (subscribe
        (snd (subscribe (settle (Fulfilled (JStr ''id1'')) (insert_coll JNull))))))) = []
   \<and> calls (unsubscribe 0 (snd (subscribe
        (snd (subscribe (settle (Fulfilled (JStr ''id1'')) (insert_coll JNull))))))) = []"
proof -
  let ?s0 = "mutate Insert [JNull]"
  let ?st = "settle (Fulfilled (JStr ''id1'')) ?s0"
  let ?st1 = "snd (subscribe ?st)"
  have p: "returned ?s0 = Pending" by (simp add: mutate_fields)
  have a: "run [Settle (Fulfilled (JStr ''id1''))] ?s0 = Some ?st" by (simp add: p)
  have b: "returned ?st \<noteq> Pending" by (simp add: settle_fields)
  have f: "fresh ?st = 0" by (simp add: settle_fields mutate_fields)
  have o: "calls ?st = []" by (simp add: settle_empty mutate_fields)
  have c: "subscribe ?st = (0, ?st1)" by (simp add: subscribe_def f)
  have d: "run [Subscribe, Unsubscribe 0] ?st1 = Some (unsubscribe 0 (snd (subscribe ?st1)))"
    by (simp add: settle_fields subscribe_fields)
  from C5_late_subscription_is_silent [OF a b c d] b c o
  show ?thesis by (simp add: insert_coll_def)
qed

section \<open>Unsubscription\<close>



section \<open>Queries\<close>

text \<open>
  C7 reads: \<^verbatim>\<open>findOne\<close> returns the first matching document as a plain value.  The code
  at \<^verbatim>\<open>findOne({_id: "a"})\<close> on a store whose \<^verbatim>\<open>findOneAsync\<close> fulfils with the document
  \<^verbatim>\<open>{_id: "a"}\<close>: the value returned is the deferred result of the store, not the document.
\<close>

theorem C7_findOne_returns_deferred:
  "findOne (\<lambda>args. Fulfilled (JObj [(''_id'', JStr ''a'')])) [JObj [(''_id'', JStr ''a'')]]
     = Deferred (Fulfilled (JObj [(''_id'', JStr ''a'')]))
   \<and> findOne (\<lambda>args. Fulfilled (JObj [(''_id'', JStr ''a'')])) [JObj [(''_id'', JStr ''a'')]]
     \<noteq> Plain (JObj [(''_id'', JStr ''a'')])"
  by (simp add: findOne_def)

section \<open>The value of an upsert\<close>


section \<open>Second names\<close>

text \<open>
  C9: each of \<^verbatim>\<open>insertAsync\<close>, \<^verbatim>\<open>removeAsync\<close>, \<^verbatim>\<open>updateAsync\<close>, \<^verbatim>\<open>upsertAsync\<close>,
  \<^verbatim>\<open>findAsync\<close> and \<^verbatim>\<open>findOneAsync\<close> behaves on every input as the operation it is the
  second name of.
\<close>

theorem C9_second_names_agree:
  "insertAsync doc = insert_coll doc
   \<and> removeAsync selector = remove selector
   \<and> updateAsync selector modifier options = update selector modifier options
   \<and> upsertAsync selector modifier options = upsert selector modifier options
   \<and> findAsync host_find create args = find_coll host_find create args
   \<and> findOneAsync host_findOneAsync args = findOne host_findOneAsync args"
  by (simp add: insertAsync_def removeAsync_def updateAsync_def upsertAsync_def
      findAsync_def findOneAsync_def)

section \<open>The frame of an unsubscription\<close>


end
